theory Spec2Isabelle
  imports Complex_Main
begin

section \<open>Data model\<close>

text \<open>
  The track generator of \<^verbatim>\<open>main.py\<close> works on numpy arrays of two floats. The model
  uses real numbers for them: a point is a pair of reals, and norms, sums and
  interpolation are exact. The two operations whose rounding changes the number of
  segments are parameters of the segmenter (see \<open>arithmetic\<close> below).
\<close>

type_synonym point = "real \<times> real"

text \<open>The exceptions the modelled code can raise.\<close>

datatype error =
  ValueError | IndexError | ZeroDivisionError | OverflowError | LibraryError | SessionNotFound

text \<open>
  A segment is the dictionary built in \<^verbatim>\<open>divide_track_into_segments\<close>. The keys
  \<^verbatim>\<open>is_curve\<close> and \<^verbatim>\<open>speed_limit\<close> are not set there; \<^verbatim>\<open>mark_curve\<close> adds them
  later, so an absent key is \<open>None\<close>.
\<close>

record segment =
  segment_number :: int
  center_point :: point
  line_start :: point
  line_end :: point
  distance :: real
  is_curve :: "bool option"
  speed_limit :: "int option"

text \<open>The attributes of a \<^verbatim>\<open>HeatTrackGenerator\<close> object.\<close>

record generator =
  track_width :: real
  segment_length :: real
  centerline_points :: "point list"
  left_border_points :: "point list"
  right_border_points :: "point list"
  segment_divisions :: "segment list"

section \<open>Vector arithmetic\<close>

definition vsub :: "point \<Rightarrow> point \<Rightarrow> point" where
  "vsub p q = (fst p - fst q, snd p - snd q)"

definition vadd :: "point \<Rightarrow> point \<Rightarrow> point" where
  "vadd p q = (fst p + fst q, snd p + snd q)"

definition vscale :: "real \<Rightarrow> point \<Rightarrow> point" where
  "vscale c p = (c * fst p, c * snd p)"

definition vdiv :: "point \<Rightarrow> real \<Rightarrow> point" where
  "vdiv p c = (fst p / c, snd p / c)"

text \<open>\<^verbatim>\<open>np.linalg.norm\<close> of a vector of two components.\<close>

definition linalg_norm :: "point \<Rightarrow> real" where
  "linalg_norm p = sqrt (fst p * fst p + snd p * snd p)"

text \<open>\<^verbatim>\<open>np.array([-direction[1], direction[0]])\<close>: the rotation by 90 degrees.\<close>

definition rotate90 :: "point \<Rightarrow> point" where
  "rotate90 d = (- snd d, fst d)"

definition dot :: "point \<Rightarrow> point \<Rightarrow> real" where
  "dot p q = fst p * fst q + snd p * snd q"

text \<open>
  numpy does not raise on a division whose divisor is zero: it yields nan or inf and
  emits a RuntimeWarning. The iterations below count those divisions.
\<close>

definition zero_divisor :: "real \<Rightarrow> nat" where
  "zero_divisor b = (if b = 0 then 1 else 0)"

section \<open>The segmenter: \<^verbatim>\<open>divide_track_into_segments\<close>\<close>

text \<open>
  The cumulative distances: \<^verbatim>\<open>distances = [0]\<close>, then one entry per further point,
  the last entry plus the norm of the step.
\<close>

fun cumulative_from :: "real \<Rightarrow> point \<Rightarrow> point list \<Rightarrow> real list" where
  "cumulative_from d prev_point [] = []"
| "cumulative_from d prev_point (curr_point # rest) =
     (d + linalg_norm (vsub curr_point prev_point))
       # cumulative_from (d + linalg_norm (vsub curr_point prev_point)) curr_point rest"

definition cumulative_distances :: "point list \<Rightarrow> real list" where
  "cumulative_distances pts =
     (case pts of [] \<Rightarrow> [0] | p # rest \<Rightarrow> 0 # cumulative_from 0 p rest)"

text \<open>Python's \<^verbatim>\<open>int\<close> of a float truncates towards zero.\<close>

definition py_int :: "real \<Rightarrow> int" where
  "py_int x = (if 0 \<le> x then \<lfloor>x\<rfloor> else \<lceil>x\<rceil>)"

text \<open>
  The value of a division of numpy floats: a finite number, an infinity or nan. numpy
  does not raise on a zero divisor.
\<close>

datatype np_float = Finite real | Infinity | NaN

text \<open>
  Two operations of the segmenter are operations on doubles whose rounding decides how
  many boundaries are placed and at which target distances, also for everyday values
  (\<^verbatim>\<open>1.0 / 0.1\<close> is the double 10, while the quotient of the two reals is below 10):
  the quotient \<^verbatim>\<open>total_length / self.segment_length\<close> and the product
  \<^verbatim>\<open>i * self.segment_length\<close>. They are parameters of the model. An infinite product
  is larger than every distance, and any real above the total length stands for it.
\<close>

record arithmetic =
  float_divide :: "real \<Rightarrow> real \<Rightarrow> np_float"
  float_times :: "nat \<Rightarrow> real \<Rightarrow> real"

text \<open>The two operations without rounding.\<close>

definition exact_arithmetic :: arithmetic where
  "exact_arithmetic =
     \<lparr>float_divide =
        (\<lambda>a b. if b = 0 then (if a = 0 then NaN else Infinity) else Finite (a / b)),
      float_times = (\<lambda>i s. real i * s)\<rparr>"

text \<open>
  \<^verbatim>\<open>num_segments = int(total_length / self.segment_length)\<close>. With one point the total
  length is the Python integer 0: a zero segment length raises ZeroDivisionError, and any
  other gives the quotient zero. With more points the total length is a numpy float and
  the quotient a numpy division; \<^verbatim>\<open>int\<close> raises OverflowError on an infinity and
  ValueError on nan.
\<close>

definition num_segments_of :: "arithmetic \<Rightarrow> point list \<Rightarrow> real \<Rightarrow> real \<Rightarrow> error + int" where
  "num_segments_of ar pts total_length seg_len =
     (if length pts = 1 then
        (if seg_len = 0 then Inl ZeroDivisionError else Inr 0)
      else
        (case float_divide ar total_length seg_len of
           Finite q \<Rightarrow> Inr (py_int q)
         | Infinity \<Rightarrow> Inl OverflowError
         | NaN \<Rightarrow> Inl ValueError))"

text \<open>
  \<^verbatim>\<open>for j in range(len(distances) - 1): if distances[j] <= target <= distances[j + 1]\<close>:
  the first such index, where the loop breaks.
\<close>

definition find_interval :: "real list \<Rightarrow> real \<Rightarrow> nat option" where
  "find_interval distances target =
     find (\<lambda>j. distances ! j \<le> target \<and> target \<le> distances ! (j + 1))
       [0..<length distances - 1]"

text \<open>
  The state of the placement loop: the boundaries appended so far, and the number of
  numpy divisions evaluated with a zero divisor.
\<close>

record placement =
  placed :: "segment list"
  zero_divides :: nat

definition empty_placement :: placement where
  "empty_placement = \<lparr>placed = [], zero_divides = 0\<rparr>"

text \<open>
  The dictionary appended for the index \<open>i\<close>, from the interpolated centre and the
  direction of the interval: the lines between the test of the norm and the append.
\<close>

definition boundary_segment ::
  "generator \<Rightarrow> nat \<Rightarrow> real \<Rightarrow> point \<Rightarrow> point \<Rightarrow> real \<Rightarrow> segment" where
  "boundary_segment g i target_distance center direction direction_norm =
     (let unit_direction = vdiv direction direction_norm;
          perpendicular = rotate90 unit_direction;
          half_width = track_width g / 2
      in \<lparr>segment_number = int i,
          center_point = center,
          line_start = vsub center (vscale half_width perpendicular),
          line_end = vadd center (vscale half_width perpendicular),
          distance = target_distance,
          is_curve = None,
          speed_limit = None\<rparr>)"

text \<open>
  One iteration of the outer loop, for the index \<open>i\<close>. The interpolation fraction
  \<open>t\<close> and the centre are computed before the test of the direction's norm, as in the
  source. (Where the divisor is zero numpy yields nan; HOL's \<open>x / 0 = 0\<close> stands for it,
  and the lemma \<open>zero_denominator_places_nothing\<close> shows that no boundary is emitted
  then.)
\<close>

definition place_boundary ::
  "arithmetic \<Rightarrow> generator \<Rightarrow> real list \<Rightarrow> nat \<Rightarrow> placement \<Rightarrow> placement" where
  "place_boundary ar g distances i st =
     (let target_distance = float_times ar i (segment_length g) in
      case find_interval distances target_distance of
        None \<Rightarrow> st
      | Some j \<Rightarrow>
          let denominator = distances ! (j + 1) - distances ! j;
              t = (target_distance - distances ! j) / denominator;
              st1 = st\<lparr>zero_divides := zero_divides st + zero_divisor denominator\<rparr>;
              p1 = centerline_points g ! j;
              p2 = centerline_points g ! (j + 1);
              center = vadd p1 (vscale t (vsub p2 p1));
              direction = vsub p2 p1;
              direction_norm = linalg_norm direction
          in if direction_norm > 0 then
               st1\<lparr>placed := placed st1 @
                       [boundary_segment g i target_distance center direction direction_norm],
                    zero_divides := zero_divides st1 + zero_divisor direction_norm\<rparr>
             else st1)"

text \<open>\<^verbatim>\<open>for i in range(num_segments + 1)\<close>, from the empty list.\<close>

definition placement_loop :: "arithmetic \<Rightarrow> generator \<Rightarrow> real list \<Rightarrow> int \<Rightarrow> placement" where
  "placement_loop ar g distances num_segments =
     fold (place_boundary ar g distances) [0..<nat (num_segments + 1)] empty_placement"

text \<open>What the iteration for the index \<open>i\<close> appends: no boundary or one.\<close>

definition placed_at :: "arithmetic \<Rightarrow> generator \<Rightarrow> real list \<Rightarrow> nat \<Rightarrow> segment list" where
  "placed_at ar g distances i = placed (place_boundary ar g distances i empty_placement)"

text \<open>The check for a closed track, which may pop the last boundary.\<close>

definition closed_loop_trim :: "generator \<Rightarrow> segment list \<Rightarrow> segment list" where
  "closed_loop_trim g segs =
     (if length (centerline_points g) > 0 then
        let first_point = hd (centerline_points g);
            last_point = last (centerline_points g);
            distance_to_start = linalg_norm (vsub last_point first_point)
        in if distance_to_start < track_width g \<and> length segs > 1 then
             if length segs \<ge> 2 then
               let last_segment = last segs;
                   first_segment = hd segs;
                   segment_distance =
                     linalg_norm (vsub (center_point last_segment) (center_point first_segment))
               in if segment_distance < segment_length g then butlast segs else segs
             else segs
           else segs
      else segs)"

text \<open>\<^verbatim>\<open>for i, segment in enumerate(...): segment['segment_number'] = i + 1\<close>\<close>

definition renumber :: "segment list \<Rightarrow> segment list" where
  "renumber segs =
     map (\<lambda>(i, segment). segment\<lparr>segment_number := int i + 1\<rparr>) (enumerate 0 segs)"

text \<open>The boundaries as the placement loop leaves them, before the trim.\<close>

definition boundaries_placed :: "arithmetic \<Rightarrow> generator \<Rightarrow> error + placement" where
  "boundaries_placed ar g =
     (if centerline_points g = [] then Inl ValueError
      else
        let distances = cumulative_distances (centerline_points g);
            total_length = last distances
        in case num_segments_of ar (centerline_points g) total_length (segment_length g) of
             Inl e \<Rightarrow> Inl e
           | Inr num_segments \<Rightarrow> Inr (placement_loop ar g distances num_segments))"

text \<open>
  The whole method; the list returned is also what \<^verbatim>\<open>self.segment_divisions\<close> holds
  afterwards.
\<close>

definition divide_track_into_segments :: "arithmetic \<Rightarrow> generator \<Rightarrow> error + segment list" where
  "divide_track_into_segments ar g =
     (case boundaries_placed ar g of
        Inl e \<Rightarrow> Inl e
      | Inr st \<Rightarrow> Inr (renumber (closed_loop_trim g (placed st))))"

section \<open>The border offsetter\<close>

text \<open>The state of the loop of \<^verbatim>\<open>_manual_offset_calculation\<close>.\<close>

record offset_state =
  left_points :: "point list"
  right_points :: "point list"
  offset_zero_divides :: nat

text \<open>
  The direction at index \<open>i\<close>: one-sided at the two ends, the central difference inside.
  With a single point the first branch reads index 1 and raises IndexError.
\<close>

definition direction_at :: "point list \<Rightarrow> nat \<Rightarrow> error + point" where
  "direction_at pts i =
     (if i = 0 then
        (if 1 < length pts then Inr (vsub (pts ! 1) (pts ! 0)) else Inl IndexError)
      else if i = length pts - 1 then Inr (vsub (pts ! i) (pts ! (i - 1)))
      else Inr (vsub (pts ! (i + 1)) (pts ! (i - 1))))"

definition offset_step :: "point list \<Rightarrow> real \<Rightarrow> nat \<Rightarrow> offset_state \<Rightarrow> error + offset_state" where
  "offset_step pts offset_distance i st =
     (let current = pts ! i in
      case direction_at pts i of
        Inl e \<Rightarrow> Inl e
      | Inr direction \<Rightarrow>
          let direction_norm = linalg_norm direction in
          if direction_norm > 0 then
            let unit_direction = vdiv direction direction_norm;
                perpendicular = rotate90 unit_direction
            in Inr (st\<lparr>left_points := left_points st @
                           [vadd current (vscale offset_distance perpendicular)],
                        right_points := right_points st @
                           [vsub current (vscale offset_distance perpendicular)],
                        offset_zero_divides :=
                           offset_zero_divides st + zero_divisor direction_norm\<rparr>)
          else Inr st)"

fun offset_loop :: "point list \<Rightarrow> real \<Rightarrow> nat list \<Rightarrow> offset_state \<Rightarrow> error + offset_state" where
  "offset_loop pts offset_distance [] st = Inr st"
| "offset_loop pts offset_distance (i # rest) st =
     (case offset_step pts offset_distance i st of
        Inl e \<Rightarrow> Inl e
      | Inr st' \<Rightarrow> offset_loop pts offset_distance rest st')"

definition manual_offset_calculation :: "generator \<Rightarrow> real \<Rightarrow> error + offset_state" where
  "manual_offset_calculation g offset_distance =
     offset_loop (centerline_points g) offset_distance [0..<length (centerline_points g)]
       \<lparr>left_points = [], right_points = [], offset_zero_divides = 0\<rparr>"

text \<open>
  The indices at which the loop appends a border point, and the two points appended
  there.
\<close>

definition emitted_indices :: "point list \<Rightarrow> nat list" where
  "emitted_indices pts =
     filter (\<lambda>i. case direction_at pts i of Inl e \<Rightarrow> False | Inr d \<Rightarrow> 0 < linalg_norm d)
       [0..<length pts]"

definition perpendicular_at :: "point list \<Rightarrow> nat \<Rightarrow> point" where
  "perpendicular_at pts i =
     (case direction_at pts i of
        Inl e \<Rightarrow> (0, 0)
      | Inr d \<Rightarrow> rotate90 (vdiv d (linalg_norm d)))"

text \<open>
  Two readings of which indices lose their border point. The estimated tangent at \<open>i\<close>
  is zero when the two points it is the difference of are equal; an index is adjacent to
  a duplicate when its point equals the next or the previous one.
\<close>

definition zero_tangent :: "point list \<Rightarrow> nat \<Rightarrow> bool" where
  "zero_tangent pts i =
     (if i = 0 then pts ! 1 = pts ! 0
      else if i = length pts - 1 then pts ! i = pts ! (i - 1)
      else pts ! (i + 1) = pts ! (i - 1))"

definition duplicate_adjacent :: "point list \<Rightarrow> nat \<Rightarrow> bool" where
  "duplicate_adjacent pts i =
     ((i + 1 < length pts \<and> pts ! i = pts ! (i + 1)) \<or> (0 < i \<and> pts ! (i - 1) = pts ! i))"

text \<open>
  The shapely library is not part of the repository. Its constructor \<^verbatim>\<open>LineString\<close>
  accepts no coordinate or at least two and raises on a single one; that much of it is
  modelled here, the line string being its list of coordinates.
\<close>

definition line_string :: "point list \<Rightarrow> error + point list" where
  "line_string coordinates =
     (if length coordinates = 1 then Inl LibraryError else Inr coordinates)"

text \<open>
  \<^verbatim>\<open>generate_track_borders\<close>. The constructor is called outside the \<^verbatim>\<open>try\<close>, so its
  exception propagates. The body of the \<^verbatim>\<open>try\<close> (the two parallel offsets and the
  extraction of their coordinates) is the parameter \<open>primary_offset\<close>. Any exception of
  the body leads to the manual calculation, whose own exception propagates.
\<close>

definition generate_track_borders ::
  "(point list \<Rightarrow> real \<Rightarrow> error + point list \<times> point list)
     \<Rightarrow> generator \<Rightarrow> error + point list \<times> point list" where
  "generate_track_borders primary_offset g =
     (if centerline_points g = [] then Inl ValueError
      else case line_string (centerline_points g) of
        Inl e \<Rightarrow> Inl e
      | Inr centerline \<Rightarrow>
          (let offset_distance = track_width g / 2 in
           (case primary_offset centerline offset_distance of
              Inr borders \<Rightarrow> Inr borders
            | Inl e \<Rightarrow>
                (case manual_offset_calculation g offset_distance of
                   Inl e' \<Rightarrow> Inl e'
                 | Inr st \<Rightarrow> Inr (left_points st, right_points st)))))"

section \<open>The web application's mutations (app.py)\<close>

type_synonym registry = "string \<rightharpoonup> generator"

text \<open>\<^verbatim>\<open>segment.get('is_curve', False)\<close>\<close>

definition get_is_curve :: "segment \<Rightarrow> bool" where
  "get_is_curve s = (case is_curve s of None \<Rightarrow> False | Some b \<Rightarrow> b)"

text \<open>The body of the loop of \<^verbatim>\<open>mark_curve\<close>, on one segment.\<close>

definition mark_segment :: "int \<Rightarrow> int \<Rightarrow> int \<Rightarrow> segment \<Rightarrow> segment" where
  "mark_segment start_segment end_segment limit s =
     (if start_segment \<le> segment_number s \<and> segment_number s \<le> end_segment
      then s\<lparr>is_curve := Some True, speed_limit := Some limit\<rparr>
      else s\<lparr>is_curve := Some (get_is_curve s)\<rparr>)"

definition mark_curve :: "registry \<Rightarrow> string \<Rightarrow> int \<Rightarrow> int \<Rightarrow> int \<Rightarrow> error + registry" where
  "mark_curve track_generators session_id start_segment end_segment limit =
     (case track_generators session_id of
        None \<Rightarrow> Inl SessionNotFound
      | Some g \<Rightarrow>
          Inr (track_generators(session_id \<mapsto>
                 g\<lparr>segment_divisions :=
                     map (mark_segment start_segment end_segment limit) (segment_divisions g)\<rparr>)))"

text \<open>
  One entry of the \<^verbatim>\<open>segments\<close> list posted to \<^verbatim>\<open>update_segments\<close>: the keys
  \<^verbatim>\<open>id\<close> and \<^verbatim>\<open>position\<close>.
\<close>

record segment_update =
  update_id :: int
  update_position :: point

text \<open>
  The inner loop of \<^verbatim>\<open>update_segments\<close>: the first segment whose number is the id
  gets the new centre, and the loop breaks.
\<close>

fun reposition :: "int \<Rightarrow> point \<Rightarrow> segment list \<Rightarrow> segment list" where
  "reposition segment_id new_position [] = []"
| "reposition segment_id new_position (s # rest) =
     (if segment_number s = segment_id
      then s\<lparr>center_point := new_position\<rparr> # rest
      else s # reposition segment_id new_position rest)"

definition update_segments :: "registry \<Rightarrow> string \<Rightarrow> segment_update list \<Rightarrow> error + registry" where
  "update_segments track_generators session_id updates =
     (case track_generators session_id of
        None \<Rightarrow> Inl SessionNotFound
      | Some g \<Rightarrow>
          Inr (track_generators(session_id \<mapsto>
                 g\<lparr>segment_divisions :=
                     fold (\<lambda>u. reposition (update_id u) (update_position u)) updates
                       (segment_divisions g)\<rparr>)))"

section \<open>Example data\<close>

definition example_segments :: "segment list" where
  "example_segments =
     [\<lparr>segment_number = 1, center_point = (0, 0), line_start = (0, -1), line_end = (0, 1),
       distance = 0, is_curve = None, speed_limit = None\<rparr>,
      \<lparr>segment_number = 2, center_point = (1, 0), line_start = (1, -1), line_end = (1, 1),
       distance = 1, is_curve = None, speed_limit = None\<rparr>]"

definition example_generator :: generator where
  "example_generator =
     \<lparr>track_width = 2, segment_length = 1, centerline_points = [(0, 0), (3, 0)],
      left_border_points = [], right_border_points = [],
      segment_divisions = example_segments\<rparr>"

text \<open>The four segments the straight track is divided into.\<close>

definition example_divisions :: "segment list" where
  "example_divisions =
     [\<lparr>segment_number = 1, center_point = (0, 0), line_start = (0, -1), line_end = (0, 1),
       distance = 0, is_curve = None, speed_limit = None\<rparr>,
      \<lparr>segment_number = 2, center_point = (1, 0), line_start = (1, -1), line_end = (1, 1),
       distance = 1, is_curve = None, speed_limit = None\<rparr>,
      \<lparr>segment_number = 3, center_point = (2, 0), line_start = (2, -1), line_end = (2, 1),
       distance = 2, is_curve = None, speed_limit = None\<rparr>,
      \<lparr>segment_number = 4, center_point = (3, 0), line_start = (3, -1), line_end = (3, 1),
       distance = 3, is_curve = None, speed_limit = None\<rparr>]"



text \<open>A centerline of one point.\<close>

definition single_point_generator :: generator where
  "single_point_generator =
     \<lparr>track_width = 2, segment_length = 1, centerline_points = [(0, 0)],
      left_border_points = [], right_border_points = [], segment_divisions = []\<rparr>"

text \<open>A centerline whose first sample is repeated.\<close>

definition duplicate_start_generator :: generator where
  "duplicate_start_generator =
     \<lparr>track_width = 2, segment_length = 1, centerline_points = [(0, 0), (0, 0), (3, 0)],
      left_border_points = [], right_border_points = [], segment_divisions = []\<rparr>"

text \<open>A centerline with a repeated sample inside.\<close>

definition duplicate_inside_generator :: generator where
  "duplicate_inside_generator =
     \<lparr>track_width = 2, segment_length = 1,
      centerline_points = [(0, 0), (1, 0), (1, 0), (2, 0)],
      left_border_points = [], right_border_points = [], segment_divisions = []\<rparr>"

definition example_registry :: registry where
  "example_registry = Map.empty(''session_0'' \<mapsto> example_generator)"

section \<open>Properties\<close>

subsection \<open>Vectors\<close>

lemma linalg_norm_nonneg: "0 \<le> linalg_norm p"
  by (simp add: linalg_norm_def)

lemma linalg_norm_zero_iff: "linalg_norm p = 0 \<longleftrightarrow> p = (0, 0)"
proof -
  have "fst p * fst p + snd p * snd p = 0 \<longleftrightarrow> fst p = 0 \<and> snd p = 0"
    by simp
  then show ?thesis
    by (simp add: linalg_norm_def prod_eq_iff)
qed

lemma linalg_norm_pos_iff: "0 < linalg_norm p \<longleftrightarrow> p \<noteq> (0, 0)"
  using linalg_norm_nonneg [of p] linalg_norm_zero_iff [of p] by linarith

lemma vsub_zero_iff: "vsub p q = (0, 0) \<longleftrightarrow> p = q"
  by (auto simp: vsub_def prod_eq_iff)

lemma linalg_norm_vsub_pos_iff: "0 < linalg_norm (vsub p q) \<longleftrightarrow> p \<noteq> q"
  by (simp add: linalg_norm_pos_iff vsub_zero_iff)

lemma linalg_norm_horizontal: "linalg_norm (x, 0) = \<bar>x\<bar>"
  by (simp add: linalg_norm_def)

lemma linalg_norm_vertical: "linalg_norm (0, y) = \<bar>y\<bar>"
  by (simp add: linalg_norm_def)

lemma linalg_norm_unit:
  assumes "0 < linalg_norm d"
  shows "linalg_norm (vdiv d (linalg_norm d)) = 1"
proof -
  let ?n = "linalg_norm d"
  have sq: "?n * ?n = fst d * fst d + snd d * snd d"
    by (simp add: linalg_norm_def)
  have "(fst d / ?n) * (fst d / ?n) + (snd d / ?n) * (snd d / ?n)
          = (fst d * fst d + snd d * snd d) / (?n * ?n)"
    by (simp add: add_divide_distrib)
  also have "\<dots> = (?n * ?n) / (?n * ?n)" by (simp only: sq)
  also have "\<dots> = 1" using assms by simp
  finally show ?thesis by (simp add: linalg_norm_def vdiv_def)
qed

lemma linalg_norm_rotate90: "linalg_norm (rotate90 d) = linalg_norm d"
  by (simp add: linalg_norm_def rotate90_def add.commute)

lemma linalg_norm_vscale: "linalg_norm (vscale c p) = \<bar>c\<bar> * linalg_norm p"
proof -
  have "(c * fst p) * (c * fst p) + (c * snd p) * (c * snd p)
          = (c * c) * (fst p * fst p + snd p * snd p)"
    by (simp add: algebra_simps)
  then show ?thesis
    by (simp add: linalg_norm_def vscale_def real_sqrt_mult)
qed

lemma linalg_norm_offset:
  assumes "0 < linalg_norm d"
  shows "linalg_norm (vscale h (rotate90 (vdiv d (linalg_norm d)))) = \<bar>h\<bar>"
  by (simp add: linalg_norm_vscale linalg_norm_rotate90 linalg_norm_unit [OF assms])

lemma dot_rotate90_unit: "dot (vscale h (rotate90 (vdiv d n))) d = 0"
  by (simp add: dot_def vscale_def rotate90_def vdiv_def)

lemma vsub_vadd_cancel: "vsub (vadd c v) c = v"
  by (simp add: vsub_def vadd_def)

lemma vsub_vsub_cancel: "vsub (vsub c v) c = vscale (-1) v"
  by (simp add: vsub_def vscale_def)

lemma midpoint_offsets: "vscale (1 / 2) (vadd (vsub c v) (vadd c v)) = c"
  by (simp add: vsub_def vadd_def vscale_def)

lemma midpoint_offsets': "vscale (1 / 2) (vadd (vadd c v) (vsub c v)) = c"
  by (simp add: vsub_def vadd_def vscale_def)

lemma offsets_difference: "vsub (vadd c v) (vsub c v) = vscale 2 v"
  by (simp add: vsub_def vadd_def vscale_def)

subsection \<open>Cumulative distances\<close>

lemma length_cumulative_from: "length (cumulative_from d p rest) = length rest"
  by (induction rest arbitrary: d p) auto

lemma length_cumulative_distances:
  "pts \<noteq> [] \<Longrightarrow> length (cumulative_distances pts) = length pts"
  by (cases pts) (auto simp: cumulative_distances_def length_cumulative_from)

lemma cumulative_from_step:
  "k < length rest \<Longrightarrow>
   (d # cumulative_from d p rest) ! Suc k
     = (d # cumulative_from d p rest) ! k + linalg_norm (vsub ((p # rest) ! Suc k) ((p # rest) ! k))"
proof (induction rest arbitrary: d p k)
  case Nil
  then show ?case by simp
next
  case (Cons c rest)
  show ?case
  proof (cases k)
    case 0
    then show ?thesis by simp
  next
    case (Suc k')
    with Cons.prems have "k' < length rest" by simp
    from Cons.IH [OF this, of "d + linalg_norm (vsub c p)" c] Suc
    show ?thesis by simp
  qed
qed

lemma cumulative_distances_step:
  assumes "Suc j < length pts"
  shows "cumulative_distances pts ! Suc j
           = cumulative_distances pts ! j + linalg_norm (vsub (pts ! Suc j) (pts ! j))"
proof (cases pts)
  case Nil
  with assms show ?thesis by simp
next
  case (Cons p rest)
  with assms have "j < length rest" by simp
  from cumulative_from_step [OF this, of 0 p] Cons show ?thesis
    by (simp add: cumulative_distances_def)
qed

lemma cumulative_distances_0: "cumulative_distances pts ! 0 = 0"
  by (cases pts) (auto simp: cumulative_distances_def)

lemma cumulative_distances_mono_step:
  "Suc j < length pts \<Longrightarrow> cumulative_distances pts ! j \<le> cumulative_distances pts ! Suc j"
  using cumulative_distances_step [of j pts] linalg_norm_nonneg by simp

lemma cumulative_distances_nonneg:
  "j < length pts \<Longrightarrow> 0 \<le> cumulative_distances pts ! j"
proof (induction j)
  case 0
  then show ?case by (simp add: cumulative_distances_0)
next
  case (Suc j)
  then show ?case using cumulative_distances_mono_step [of j pts] by simp
qed

subsection \<open>The interval of a target distance\<close>

lemma find_interval_Some:
  assumes "find_interval ds t = Some j"
  shows "Suc j < length ds" and "ds ! j \<le> t" and "t \<le> ds ! Suc j"
    and "\<And>k. k < j \<Longrightarrow> \<not> (ds ! k \<le> t \<and> t \<le> ds ! Suc k)"
proof -
  from assms obtain i where i: "i < length [0..<length ds - 1]"
    and p: "ds ! ([0..<length ds - 1] ! i) \<le> t \<and> t \<le> ds ! ([0..<length ds - 1] ! i + 1)"
    and j: "j = [0..<length ds - 1] ! i"
    and m: "\<forall>k<i. \<not> (ds ! ([0..<length ds - 1] ! k) \<le> t \<and> t \<le> ds ! ([0..<length ds - 1] ! k + 1))"
    unfolding find_interval_def find_Some_iff by blast
  from i have il: "i < length ds - 1" by simp
  then have ji: "j = i" using j by simp
  show "Suc j < length ds" using il ji by simp
  show "ds ! j \<le> t" using p il ji by simp
  show "t \<le> ds ! Suc j" using p il ji by simp
  show "\<not> (ds ! k \<le> t \<and> t \<le> ds ! Suc k)" if "k < j" for k
  proof -
    from that ji il have ki: "k < i" and kl: "k < length ds - 1" by simp_all
    from kl have "[0..<length ds - 1] ! k = k" by simp
    with m [rule_format, OF ki] show ?thesis by simp
  qed
qed

lemma interval_exists:
  fixes ds :: "real list"
  shows "0 < m \<Longrightarrow> ds ! 0 \<le> t \<Longrightarrow> t \<le> ds ! m \<Longrightarrow> \<exists>j<m. ds ! j \<le> t \<and> t \<le> ds ! Suc j"
proof (induction m)
  case 0
  then show ?case by simp
next
  case (Suc m)
  show ?case
  proof (cases "t \<le> ds ! m")
    case True
    show ?thesis
    proof (cases "m = 0")
      case True
      with Suc.prems show ?thesis by auto
    next
      case False
      with Suc.IH [OF _ Suc.prems(2) True] obtain j where "j < m" "ds ! j \<le> t \<and> t \<le> ds ! Suc j"
        by auto
      then show ?thesis by (intro exI [of _ j]) simp
    qed
  next
    case False
    with Suc.prems show ?thesis by (intro exI [of _ m]) simp
  qed
qed

lemma find_interval_total:
  assumes "2 \<le> length ds" and "ds ! 0 \<le> t" and "t \<le> last ds"
  shows "\<exists>j. find_interval ds t = Some j"
proof -
  from assms(1) have ne: "ds \<noteq> []" by auto
  have "0 < length ds - 1" using assms(1) by simp
  moreover have "t \<le> ds ! (length ds - 1)" using assms(3) ne by (simp add: last_conv_nth)
  ultimately obtain j where j: "j < length ds - 1" "ds ! j \<le> t \<and> t \<le> ds ! Suc j"
    using interval_exists [of "length ds - 1" ds t] assms(2) by blast
  then have "\<exists>x\<in>set [0..<length ds - 1]. ds ! x \<le> t \<and> t \<le> ds ! (x + 1)"
    by (intro bexI [of _ j]) simp_all
  then have "find_interval ds t \<noteq> None"
    unfolding find_interval_def find_None_iff by blast
  then show ?thesis by auto
qed


lemma find_interval_zero:
  assumes "2 \<le> length pts"
  shows "find_interval (cumulative_distances pts) 0 = Some 0"
proof -
  let ?ds = "cumulative_distances pts"
  from assms have ne: "pts \<noteq> []" by auto
  have len: "length ?ds = length pts" by (rule length_cumulative_distances [OF ne])
  have d0: "?ds ! 0 = 0" by (rule cumulative_distances_0)
  have d1: "0 \<le> ?ds ! Suc 0" using cumulative_distances_nonneg [of "Suc 0" pts] assms by simp
  have dne: "?ds \<noteq> []" using len ne by auto
  have "0 \<le> ?ds ! (length pts - 1)"
    using cumulative_distances_nonneg [of "length pts - 1" pts] assms by simp
  then have "0 \<le> last ?ds"
    using len by (simp add: last_conv_nth [OF dne])
  with find_interval_total [of ?ds 0] len assms d0
  obtain j where j: "find_interval ?ds 0 = Some j" by auto
  have "j = 0"
  proof (rule ccontr)
    assume "j \<noteq> 0"
    then have "0 < j" by simp
    from find_interval_Some(4) [OF j this] d0 d1 show False by simp
  qed
  with j show ?thesis by simp
qed

lemma found_interval_positive:
  assumes j: "find_interval (cumulative_distances pts) t = Some j" and t: "0 < t"
    and ne: "pts \<noteq> []"
  shows "0 < linalg_norm (vsub (pts ! Suc j) (pts ! j))"
proof -
  let ?ds = "cumulative_distances pts"
  have len: "length ?ds = length pts" by (rule length_cumulative_distances [OF ne])
  note f = find_interval_Some [OF j]
  have sj: "Suc j < length pts" using f(1) len by simp
  have "?ds ! j < t"
  proof (cases j)
    case 0
    then show ?thesis using t by (simp add: cumulative_distances_0)
  next
    case (Suc k)
    then have "k < j" by simp
    from f(4) [OF this] have "\<not> (?ds ! k \<le> t \<and> t \<le> ?ds ! j)" using Suc by simp
    moreover have "?ds ! k \<le> ?ds ! j"
      using cumulative_distances_mono_step [of k pts] sj Suc by simp
    moreover note f(2)
    ultimately show ?thesis by linarith
  qed
  with f(3) have "?ds ! j < ?ds ! Suc j" by linarith
  with cumulative_distances_step [OF sj] show ?thesis by simp
qed

lemma found_interval_denominator:
  assumes j: "find_interval (cumulative_distances pts) t = Some j" and ne: "pts \<noteq> []"
  shows "cumulative_distances pts ! (j + 1) - cumulative_distances pts ! j
           = linalg_norm (vsub (pts ! (j + 1)) (pts ! j))"
proof -
  have "Suc j < length pts"
    using find_interval_Some(1) [OF j] length_cumulative_distances [OF ne] by simp
  from cumulative_distances_step [OF this] show ?thesis by simp
qed

subsection \<open>One iteration of the placement loop\<close>

lemma placed_place_boundary:
  "placed (place_boundary ar g ds i st) = placed st @ placed_at ar g ds i"
  by (simp add: placed_at_def place_boundary_def empty_placement_def Let_def
           split: option.split)

lemma zero_divides_place_boundary:
  "zero_divides (place_boundary ar g ds i st)
     = zero_divides st + zero_divides (place_boundary ar g ds i empty_placement)"
  by (simp add: place_boundary_def empty_placement_def Let_def split: option.split)

lemma placed_at_None:
  "find_interval ds (float_times ar i (segment_length g)) = None \<Longrightarrow> placed_at ar g ds i = []"
  by (simp add: placed_at_def place_boundary_def empty_placement_def)

lemma placed_at_Some:
  assumes "find_interval ds (float_times ar i (segment_length g)) = Some j"
  shows "placed_at ar g ds i =
     (if 0 < linalg_norm (vsub (centerline_points g ! (j + 1)) (centerline_points g ! j))
      then [boundary_segment g i (float_times ar i (segment_length g))
              (vadd (centerline_points g ! j)
                 (vscale ((float_times ar i (segment_length g) - ds ! j) / (ds ! (j + 1) - ds ! j))
                    (vsub (centerline_points g ! (j + 1)) (centerline_points g ! j))))
              (vsub (centerline_points g ! (j + 1)) (centerline_points g ! j))
              (linalg_norm (vsub (centerline_points g ! (j + 1)) (centerline_points g ! j)))]
      else [])"
  using assms by (simp add: placed_at_def place_boundary_def empty_placement_def Let_def)

lemma placed_fold:
  "placed (fold (place_boundary ar g ds) ks st) = placed st @ concat (map (placed_at ar g ds) ks)"
proof (induction ks arbitrary: st)
  case Nil
  then show ?case by simp
next
  case (Cons k ks)
  show ?case by (simp add: Cons.IH placed_place_boundary)
qed

lemma placed_placement_loop:
  "placed (placement_loop ar g ds n) = concat (map (placed_at ar g ds) [0..<nat (n + 1)])"
  by (simp add: placement_loop_def placed_fold empty_placement_def)

lemma zero_divides_fold:
  "zero_divides (fold (place_boundary ar g ds) ks st)
     = zero_divides st
       + sum_list (map (\<lambda>k. zero_divides (place_boundary ar g ds k empty_placement)) ks)"
proof (induction ks arbitrary: st)
  case Nil
  then show ?case by simp
next
  case (Cons k ks)
  show ?case
    by (simp add: Cons.IH zero_divides_place_boundary [of ar g ds k st])
qed

text \<open>
  Where the divisor of the interpolation fraction is zero, the direction is zero too and
  nothing is appended: the value the model gives to the fraction there is never used.
\<close>

lemma zero_denominator_places_nothing:
  assumes "find_interval (cumulative_distances (centerline_points g))
             (float_times ar i (segment_length g)) = Some j"
    and "centerline_points g \<noteq> []"
    and "cumulative_distances (centerline_points g) ! (j + 1)
           - cumulative_distances (centerline_points g) ! j = 0"
  shows "placed_at ar g (cumulative_distances (centerline_points g)) i = []"
  using found_interval_denominator [OF assms(1,2)] assms(3)
  by (simp add: placed_at_Some [OF assms(1)])

subsection \<open>How many boundaries are placed\<close>

lemma cumulative_distances_mono:
  "j \<le> k \<Longrightarrow> k < length pts \<Longrightarrow> cumulative_distances pts ! j \<le> cumulative_distances pts ! k"
proof (induction k)
  case 0
  then show ?case by simp
next
  case (Suc k)
  show ?case
  proof (cases "j = Suc k")
    case True
    then show ?thesis by simp
  next
    case False
    with Suc.prems have "j \<le> k" "k < length pts" by simp_all
    from Suc.IH [OF this] cumulative_distances_mono_step [of k pts] Suc.prems(2)
    show ?thesis by simp
  qed
qed

lemma cumulative_distances_le_last:
  assumes "j < length pts"
  shows "cumulative_distances pts ! j \<le> last (cumulative_distances pts)"
proof -
  from assms have ne: "pts \<noteq> []" by auto
  then have dne: "cumulative_distances pts \<noteq> []"
    using length_cumulative_distances [OF ne] by auto
  have "cumulative_distances pts ! j \<le> cumulative_distances pts ! (length pts - 1)"
    using cumulative_distances_mono [of j "length pts - 1" pts] assms by simp
  then show ?thesis
    using length_cumulative_distances [OF ne] by (simp add: last_conv_nth [OF dne])
qed



lemma placed_at_first:
  assumes "2 \<le> length (centerline_points g)" and "float_times ar 0 (segment_length g) = 0"
  shows "length (placed_at ar g (cumulative_distances (centerline_points g)) 0)
           = (if centerline_points g ! 0 \<noteq> centerline_points g ! 1 then 1 else 0)"
proof -
  have "find_interval (cumulative_distances (centerline_points g))
          (float_times ar 0 (segment_length g)) = Some 0"
    using find_interval_zero [OF assms(1)] assms(2) by simp
  from placed_at_Some [OF this] show ?thesis
    by (auto simp: linalg_norm_vsub_pos_iff)
qed




lemma last_cumulative_distances_nonneg:
  "0 \<le> last (cumulative_distances pts)"
proof (cases pts)
  case Nil
  then show ?thesis by (simp add: cumulative_distances_def)
next
  case (Cons p rest)
  then have "0 < length pts" by simp
  from cumulative_distances_le_last [OF this] show ?thesis
    by (simp add: cumulative_distances_0)
qed





subsection \<open>Where the placement loop divides by zero\<close>

lemma zero_divides_at:
  assumes "find_interval (cumulative_distances (centerline_points g))
             (float_times ar i (segment_length g)) = Some j"
    and "centerline_points g \<noteq> []"
  shows "zero_divides (place_boundary ar g (cumulative_distances (centerline_points g)) i
                         empty_placement)
           = (if centerline_points g ! (j + 1) = centerline_points g ! j then 1 else 0)"
proof -
  let ?d = "linalg_norm (vsub (centerline_points g ! (j + 1)) (centerline_points g ! j))"
  have den: "cumulative_distances (centerline_points g) ! (j + 1)
               - cumulative_distances (centerline_points g) ! j = ?d"
    by (rule found_interval_denominator [OF assms])
  have run: "zero_divides (place_boundary ar g (cumulative_distances (centerline_points g)) i
                            empty_placement)
               = zero_divisor ?d + (if 0 < ?d then zero_divisor ?d else 0)"
    using assms(1) den by (simp add: place_boundary_def empty_placement_def Let_def)
  show ?thesis
  proof (cases "centerline_points g ! (j + 1) = centerline_points g ! j")
    case True
    then have "?d = 0" by (simp add: linalg_norm_zero_iff vsub_zero_iff)
    then show ?thesis using True by (simp only: run zero_divisor_def) simp
  next
    case False
    then have "0 < ?d" by (simp only: linalg_norm_vsub_pos_iff) simp
    then show ?thesis using False by (simp only: run zero_divisor_def) simp
  qed
qed

text \<open>
  A centerline whose first two samples are equal: the iteration for the arc distance 0
  evaluates one division by zero and appends nothing.
\<close>

lemma repeated_first_sample:
  assumes "2 \<le> length (centerline_points g)"
    and "centerline_points g ! 1 = centerline_points g ! 0"
    and "float_times ar 0 (segment_length g) = 0"
  shows "zero_divides (place_boundary ar g (cumulative_distances (centerline_points g)) 0
                         empty_placement) = 1"
    and "placed_at ar g (cumulative_distances (centerline_points g)) 0 = []"
proof -
  from assms(1) have ne: "centerline_points g \<noteq> []" by auto
  have j: "find_interval (cumulative_distances (centerline_points g))
             (float_times ar 0 (segment_length g)) = Some 0"
    using find_interval_zero [OF assms(1)] assms(3) by simp
  show "zero_divides (place_boundary ar g (cumulative_distances (centerline_points g)) 0
                         empty_placement) = 1"
    using zero_divides_at [OF j ne] assms(2) by simp
  show "placed_at ar g (cumulative_distances (centerline_points g)) 0 = []"
    using placed_at_first [OF assms(1,3)] assms(2) by simp
qed

text \<open>
  That is the only one: for a positive target distance the interval found has a direction
  that is not zero.
\<close>

lemma later_iterations_divide_safely:
  assumes "centerline_points g \<noteq> []" and "0 < float_times ar i (segment_length g)"
  shows "zero_divides (place_boundary ar g (cumulative_distances (centerline_points g)) i
                         empty_placement) = 0"
proof (cases "find_interval (cumulative_distances (centerline_points g))
                (float_times ar i (segment_length g))")
  case None
  then show ?thesis by (simp add: place_boundary_def empty_placement_def)
next
  case (Some j)
  from found_interval_positive [OF Some assms(2,1)]
  have "centerline_points g ! (j + 1) \<noteq> centerline_points g ! j"
    by (simp add: linalg_norm_vsub_pos_iff)
  with zero_divides_at [OF Some assms(1)] show ?thesis by simp
qed

subsection \<open>The manual offset calculation\<close>

lemma direction_at_defined:
  assumes "2 \<le> length pts"
  shows "\<exists>d. direction_at pts i = Inr d"
  using assms by (simp add: direction_at_def)

lemma direction_at_nonzero_iff:
  assumes "2 \<le> length pts"
  shows "(case direction_at pts i of Inl e \<Rightarrow> False | Inr d \<Rightarrow> 0 < linalg_norm d)
           \<longleftrightarrow> \<not> zero_tangent pts i"
  using assms by (simp add: direction_at_def zero_tangent_def linalg_norm_vsub_pos_iff)

lemma offset_step_emit:
  assumes "direction_at pts i = Inr d" and "0 < linalg_norm d"
  shows "offset_step pts off i st =
           Inr (st\<lparr>left_points := left_points st @
                       [vadd (pts ! i) (vscale off (perpendicular_at pts i))],
                    right_points := right_points st @
                       [vsub (pts ! i) (vscale off (perpendicular_at pts i))]\<rparr>)"
  using assms by (simp add: offset_step_def perpendicular_at_def zero_divisor_def Let_def)

lemma offset_step_skip:
  assumes "direction_at pts i = Inr d" and "\<not> 0 < linalg_norm d"
  shows "offset_step pts off i st = Inr st"
  using assms by (simp add: offset_step_def Let_def)

lemma offset_loop_result:
  assumes "2 \<le> length pts"
  shows "offset_loop pts off ks st =
           Inr (st\<lparr>left_points := left_points st @
                       map (\<lambda>i. vadd (pts ! i) (vscale off (perpendicular_at pts i)))
                         (filter (\<lambda>i. case direction_at pts i of
                                           Inl e \<Rightarrow> False | Inr d \<Rightarrow> 0 < linalg_norm d) ks),
                    right_points := right_points st @
                       map (\<lambda>i. vsub (pts ! i) (vscale off (perpendicular_at pts i)))
                         (filter (\<lambda>i. case direction_at pts i of
                                           Inl e \<Rightarrow> False | Inr d \<Rightarrow> 0 < linalg_norm d) ks)\<rparr>)"
proof (induction ks arbitrary: st)
  case Nil
  show ?case by simp
next
  case (Cons k ks)
  from direction_at_defined [OF assms, of k] obtain d where d: "direction_at pts k = Inr d"
    by blast
  show ?case
  proof (cases "0 < linalg_norm d")
    case True
    show ?thesis
      by (simp add: offset_step_emit [OF d True] Cons.IH d True)
  next
    case False
    show ?thesis
      by (simp add: offset_step_skip [OF d False] Cons.IH d False)
  qed
qed

lemma manual_offset_calculation_result:
  assumes "2 \<le> length (centerline_points g)"
  shows "manual_offset_calculation g off =
           Inr \<lparr>left_points =
                   map (\<lambda>i. vadd (centerline_points g ! i)
                               (vscale off (perpendicular_at (centerline_points g) i)))
                     (emitted_indices (centerline_points g)),
                right_points =
                   map (\<lambda>i. vsub (centerline_points g ! i)
                               (vscale off (perpendicular_at (centerline_points g) i)))
                     (emitted_indices (centerline_points g)),
                offset_zero_divides = 0\<rparr>"
  by (simp add: manual_offset_calculation_def offset_loop_result [OF assms] emitted_indices_def)

lemma emitted_indices_set:
  assumes "2 \<le> length pts"
  shows "set (emitted_indices pts) = {i. i < length pts \<and> \<not> zero_tangent pts i}"
  using direction_at_nonzero_iff [OF assms] by (auto simp: emitted_indices_def)

lemma emitted_indices_filter:
  assumes "2 \<le> length pts"
  shows "emitted_indices pts = filter (\<lambda>i. \<not> zero_tangent pts i) [0..<length pts]"
  using direction_at_nonzero_iff [OF assms] by (simp add: emitted_indices_def)

lemma length_emitted_indices: "length (emitted_indices pts) \<le> length pts"
  using length_filter_le [of _ "[0..<length pts]"] by (simp add: emitted_indices_def)

lemma perpendicular_at_unit:
  assumes "2 \<le> length pts" and "i \<in> set (emitted_indices pts)"
  shows "linalg_norm (perpendicular_at pts i) = 1"
proof -
  from direction_at_defined [OF assms(1), of i] obtain d where d: "direction_at pts i = Inr d"
    by blast
  with assms(2) have "0 < linalg_norm d" by (simp add: emitted_indices_def)
  then show ?thesis
    by (simp add: perpendicular_at_def d linalg_norm_rotate90 linalg_norm_unit)
qed

lemma single_point_offset_fails:
  assumes "centerline_points g = [p]"
  shows "manual_offset_calculation g off = Inl IndexError"
  using assms by (simp add: manual_offset_calculation_def offset_step_def direction_at_def)

subsection \<open>Renumbering and the closed-loop trim\<close>

lemma length_renumber: "length (renumber segs) = length segs"
  by (simp add: renumber_def)

lemma renumber_nth:
  "i < length segs \<Longrightarrow> renumber segs ! i = (segs ! i)\<lparr>segment_number := int i + 1\<rparr>"
  by (simp add: renumber_def nth_enumerate_eq)

lemma renumber_numbers: "map segment_number (renumber segs) = map int [1..<length segs + 1]"
proof (rule nth_equalityI)
  show "length (map segment_number (renumber segs)) = length (map int [1..<length segs + 1])"
    by (simp add: length_renumber del: upt_Suc)
next
  fix i
  assume "i < length (map segment_number (renumber segs))"
  then have i: "i < length segs" by (simp add: length_renumber)
  then have "[1..<length segs + 1] ! i = 1 + i" by (simp del: upt_Suc)
  then show "map segment_number (renumber segs) ! i = map int [1..<length segs + 1] ! i"
    using i by (simp add: length_renumber renumber_nth del: upt_Suc)
qed

lemma renumber_member:
  assumes "s \<in> set (renumber segs)"
  shows "\<exists>s0 k. s0 \<in> set segs \<and> s = s0\<lparr>segment_number := k\<rparr>"
proof -
  from assms obtain i where i: "i < length segs" and s: "s = renumber segs ! i"
    by (auto simp: in_set_conv_nth length_renumber)
  then have "s = (segs ! i)\<lparr>segment_number := int i + 1\<rparr>" by (simp add: renumber_nth)
  with i show ?thesis by (intro exI [of _ "segs ! i"] exI [of _ "int i + 1"]) simp
qed


lemma closed_loop_trim_subset: "set (closed_loop_trim g segs) \<subseteq> set segs"
  by (auto simp: closed_loop_trim_def Let_def dest: in_set_butlastD)


subsection \<open>The geometry of a placed boundary\<close>

lemma boundary_segment_geometry:
  assumes "0 < linalg_norm d"
  shows "linalg_norm (vsub (line_start (boundary_segment g i t c d (linalg_norm d)))
                        (center_point (boundary_segment g i t c d (linalg_norm d))))
           = \<bar>track_width g / 2\<bar>"
    and "linalg_norm (vsub (line_end (boundary_segment g i t c d (linalg_norm d)))
                        (center_point (boundary_segment g i t c d (linalg_norm d))))
           = \<bar>track_width g / 2\<bar>"
    and "center_point (boundary_segment g i t c d (linalg_norm d))
           = vscale (1 / 2) (vadd (line_start (boundary_segment g i t c d (linalg_norm d)))
                                  (line_end (boundary_segment g i t c d (linalg_norm d))))"
    and "dot (vsub (line_end (boundary_segment g i t c d (linalg_norm d)))
                   (line_start (boundary_segment g i t c d (linalg_norm d)))) d = 0"
    and "distance (boundary_segment g i t c d (linalg_norm d)) = t"
    and "center_point (boundary_segment g i t c d (linalg_norm d)) = c"
proof -
  let ?v = "vscale (track_width g / 2) (rotate90 (vdiv d (linalg_norm d)))"
  have n: "linalg_norm ?v = \<bar>track_width g / 2\<bar>" by (rule linalg_norm_offset [OF assms])
  have "linalg_norm (vscale (-1) ?v) = \<bar>track_width g / 2\<bar>"
    by (simp add: linalg_norm_vscale [of "-1"] n)
  then show "linalg_norm (vsub (line_start (boundary_segment g i t c d (linalg_norm d)))
                        (center_point (boundary_segment g i t c d (linalg_norm d))))
           = \<bar>track_width g / 2\<bar>"
    by (simp add: boundary_segment_def Let_def vsub_vsub_cancel)
  show "linalg_norm (vsub (line_end (boundary_segment g i t c d (linalg_norm d)))
                        (center_point (boundary_segment g i t c d (linalg_norm d))))
           = \<bar>track_width g / 2\<bar>"
    using n by (simp add: boundary_segment_def Let_def vsub_vadd_cancel)
  show "center_point (boundary_segment g i t c d (linalg_norm d))
           = vscale (1 / 2) (vadd (line_start (boundary_segment g i t c d (linalg_norm d)))
                                  (line_end (boundary_segment g i t c d (linalg_norm d))))"
    by (simp add: boundary_segment_def Let_def midpoint_offsets)
  have "dot (vscale 2 ?v) d = 0"
    by (simp add: dot_def vscale_def rotate90_def vdiv_def)
  then show "dot (vsub (line_end (boundary_segment g i t c d (linalg_norm d)))
                   (line_start (boundary_segment g i t c d (linalg_norm d)))) d = 0"
    by (simp add: boundary_segment_def Let_def offsets_difference)
  show "distance (boundary_segment g i t c d (linalg_norm d)) = t"
    by (simp add: boundary_segment_def Let_def)
  show "center_point (boundary_segment g i t c d (linalg_norm d)) = c"
    by (simp add: boundary_segment_def Let_def)
qed

lemma placed_at_member:
  assumes "s \<in> set (placed_at ar g ds i)"
  shows "\<exists>j. find_interval ds (float_times ar i (segment_length g)) = Some j \<and>
           0 < linalg_norm (vsub (centerline_points g ! Suc j) (centerline_points g ! j)) \<and>
           s = boundary_segment g i (float_times ar i (segment_length g))
                 (vadd (centerline_points g ! j)
                    (vscale ((float_times ar i (segment_length g) - ds ! j) / (ds ! Suc j - ds ! j))
                       (vsub (centerline_points g ! Suc j) (centerline_points g ! j))))
                 (vsub (centerline_points g ! Suc j) (centerline_points g ! j))
                 (linalg_norm (vsub (centerline_points g ! Suc j) (centerline_points g ! j)))"
proof (cases "find_interval ds (float_times ar i (segment_length g))")
  case None
  with assms show ?thesis by (simp add: placed_at_None)
next
  case (Some j)
  from assms placed_at_Some [OF Some] show ?thesis
    by (auto simp: Some split: if_splits)
qed

lemma placement_loop_member:
  assumes "s \<in> set (placed (placement_loop ar g ds n))"
  shows "\<exists>i. s \<in> set (placed_at ar g ds i)"
  using assms by (auto simp: placed_placement_loop)

subsection \<open>The example tracks, evaluated\<close>

text \<open>
  The examples run with \<open>exact_arithmetic\<close>. Their lengths and segment lengths are small
  integers, so the doubles of the program give the same quotient after truncation and
  the same products.
\<close>

lemmas vector_defs = vsub_def vadd_def vscale_def vdiv_def rotate90_def

lemma upt_4: "[0..<4] = [0, 1, 2, 3]"
  by (simp add: upt_rec)

lemma example_cumulative: "cumulative_distances [(0, 0), (3, 0)] = [0, 3]"
  by (simp add: cumulative_distances_def vsub_def linalg_norm_horizontal)

lemma example_find:
  "find_interval [0, 3] 0 = Some 0" "find_interval [0, 3] 1 = Some 0"
  "find_interval [0, 3] 2 = Some 0" "find_interval [0, 3] 3 = Some 0"
  by (simp_all add: find_interval_def)

lemma example_placed:
  "boundaries_placed exact_arithmetic example_generator =
     Inr \<lparr>placed =
            [\<lparr>segment_number = 0, center_point = (0, 0), line_start = (0, -1),
              line_end = (0, 1), distance = 0, is_curve = None, speed_limit = None\<rparr>,
             \<lparr>segment_number = 1, center_point = (1, 0), line_start = (1, -1),
              line_end = (1, 1), distance = 1, is_curve = None, speed_limit = None\<rparr>,
             \<lparr>segment_number = 2, center_point = (2, 0), line_start = (2, -1),
              line_end = (2, 1), distance = 2, is_curve = None, speed_limit = None\<rparr>,
             \<lparr>segment_number = 3, center_point = (3, 0), line_start = (3, -1),
              line_end = (3, 1), distance = 3, is_curve = None, speed_limit = None\<rparr>],
          zero_divides = 0\<rparr>"
  by (simp add: boundaries_placed_def example_generator_def example_cumulative
        num_segments_of_def exact_arithmetic_def py_int_def placement_loop_def upt_4 place_boundary_def
        example_find boundary_segment_def empty_placement_def zero_divisor_def vector_defs
        linalg_norm_horizontal Let_def)

lemma example_divided:
  "divide_track_into_segments exact_arithmetic example_generator = Inr example_divisions"
proof -
  have "\<not> linalg_norm (vsub (3, 0) (0, 0)) < 2"
    by (simp add: vsub_def linalg_norm_horizontal)
  then show ?thesis
    by (simp add: divide_track_into_segments_def example_placed closed_loop_trim_def
          renumber_def example_divisions_def Let_def) (simp add: example_generator_def)
qed






lemma single_point_divided:
  "divide_track_into_segments exact_arithmetic single_point_generator = Inr []"
  by (simp add: divide_track_into_segments_def boundaries_placed_def
        single_point_generator_def cumulative_distances_def num_segments_of_def exact_arithmetic_def py_int_def
        placement_loop_def place_boundary_def find_interval_def empty_placement_def
        closed_loop_trim_def renumber_def vsub_def linalg_norm_horizontal Let_def)

lemma duplicate_start_cumulative:
  "cumulative_distances [(0, 0), (0, 0), (3, 0)] = [0, 0, 3]"
  by (simp add: cumulative_distances_def vsub_def linalg_norm_horizontal)

lemma duplicate_start_find:
  "find_interval [0, 0, 3] 0 = Some 0" "find_interval [0, 0, 3] 1 = Some 1"
  "find_interval [0, 0, 3] 2 = Some 1" "find_interval [0, 0, 3] 3 = Some 1"
  by (simp_all add: find_interval_def upt_rec)

lemma duplicate_inside_offsets:
  "manual_offset_calculation duplicate_inside_generator 1 =
     Inr \<lparr>left_points = [(0, 1), (1, 1), (1, 1), (2, 1)],
          right_points = [(0, -1), (1, -1), (1, -1), (2, -1)],
          offset_zero_divides = 0\<rparr>"
  by (simp add: manual_offset_calculation_def duplicate_inside_generator_def upt_4
        offset_step_def direction_at_def zero_divisor_def vector_defs
        linalg_norm_horizontal Let_def)

subsection \<open>The segmenter and the border offsetter\<close>

lemma boundaries_placed_Inr:
  assumes "boundaries_placed ar g = Inr st"
  shows "centerline_points g \<noteq> []"
    and "\<exists>n. st = placement_loop ar g (cumulative_distances (centerline_points g)) n"
  using assms by (auto simp: boundaries_placed_def Let_def split: if_splits sum.splits)

lemma single_point_divide:
  assumes "centerline_points g = [p]" and "segment_length g \<noteq> 0"
  shows "divide_track_into_segments ar g = Inr []"
proof -
  have "placement_loop ar g [0] 0 = empty_placement"
    by (simp add: placement_loop_def place_boundary_def find_interval_def)
  then show ?thesis
    using assms
    by (simp add: divide_track_into_segments_def boundaries_placed_def
          cumulative_distances_def num_segments_of_def empty_placement_def
          closed_loop_trim_def renumber_def Let_def)
qed






text \<open>
  Claim C3, as amended. For a centerline of exactly one point (and a segment length other
  than zero) the segmenter raises nothing and returns the empty list; its guard raises
  for the empty centerline, not for a single point. The border offsetter fails and
  produces no border: \<^verbatim>\<open>generate_track_borders\<close> with the error of the \<^verbatim>\<open>LineString\<close>
  constructor, whatever the primary offset would do, and the manual offset calculation
  with IndexError.
\<close>

theorem single_point_centerline:
  assumes "centerline_points g = [p]" and "segment_length g \<noteq> 0"
  shows "divide_track_into_segments ar g = Inr [] \<and>
         divide_track_into_segments ar (g\<lparr>centerline_points := []\<rparr>) = Inl ValueError \<and>
         generate_track_borders primary_offset g = Inl LibraryError \<and>
         manual_offset_calculation g offset_distance = Inl IndexError"
proof -
  have segmenter: "divide_track_into_segments ar g = Inr []"
    by (rule single_point_divide [OF assms])
  have guard: "divide_track_into_segments ar (g\<lparr>centerline_points := []\<rparr>) = Inl ValueError"
    by (simp add: divide_track_into_segments_def boundaries_placed_def)
  have borders: "generate_track_borders primary_offset g = Inl LibraryError"
    using assms(1) by (simp add: generate_track_borders_def line_string_def)
  have fallback: "manual_offset_calculation g offset_distance = Inl IndexError"
    by (rule single_point_offset_fails [OF assms(1)])
  from segmenter guard borders fallback show ?thesis by simp
qed

theorem single_point_centerline_witness:
  "centerline_points single_point_generator = [(0, 0)] \<and>
   segment_length single_point_generator \<noteq> 0 \<and>
   divide_track_into_segments exact_arithmetic single_point_generator = Inr [] \<and>
   generate_track_borders (\<lambda>centerline offset_distance. Inr ([], []))
     single_point_generator = Inl LibraryError \<and>
   manual_offset_calculation single_point_generator 1 = Inl IndexError"
proof -
  have h1: "centerline_points single_point_generator = [(0, 0)]"
    and h2: "segment_length single_point_generator \<noteq> 0"
    by (simp_all add: single_point_generator_def)
  from single_point_centerline [OF h1 h2, of exact_arithmetic
         "\<lambda>centerline offset_distance. Inr ([], [])" 1] h1 h2
  show ?thesis by simp
qed

text \<open>
  Claim C3 as stated fails: on a centerline of one point the segmenter returns the empty
  list, where the claim has it fail.
\<close>

theorem single_point_centerline_counterexample:
  "divide_track_into_segments exact_arithmetic single_point_generator = Inr []"
  by (rule single_point_divided)

text \<open>
  Claim C4. With a track width that is not negative, every segment the segmenter returns
  has \<open>line_start\<close> and \<open>line_end\<close> at distance \<open>track_width / 2\<close> from \<open>center_point\<close>,
  which is their midpoint (so the three are collinear, the centre between the ends); and
  for some interval \<open>j\<close> of the centerline whose cumulative distances enclose the
  segment's arc distance, the centre is interpolated between \<open>points[j]\<close> and
  \<open>points[j+1]\<close> and the line from \<open>line_start\<close> to \<open>line_end\<close> is perpendicular to
  \<open>points[j+1] - points[j]\<close>.
\<close>

theorem boundary_line_geometry:
  assumes "0 \<le> track_width g" and "divide_track_into_segments ar g = Inr segs"
    and "s \<in> set segs"
  shows "linalg_norm (vsub (line_start s) (center_point s)) = track_width g / 2 \<and>
         linalg_norm (vsub (line_end s) (center_point s)) = track_width g / 2 \<and>
         center_point s = vscale (1 / 2) (vadd (line_start s) (line_end s)) \<and>
         (\<exists>j. Suc j < length (centerline_points g) \<and>
              cumulative_distances (centerline_points g) ! j \<le> distance s \<and>
              distance s \<le> cumulative_distances (centerline_points g) ! Suc j \<and>
              center_point s =
                vadd (centerline_points g ! j)
                  (vscale ((distance s - cumulative_distances (centerline_points g) ! j)
                            / (cumulative_distances (centerline_points g) ! Suc j
                               - cumulative_distances (centerline_points g) ! j))
                     (vsub (centerline_points g ! Suc j) (centerline_points g ! j))) \<and>
              dot (vsub (line_end s) (line_start s))
                  (vsub (centerline_points g ! Suc j) (centerline_points g ! j)) = 0)"
proof -
  let ?pts = "centerline_points g"
  let ?ds = "cumulative_distances ?pts"
  from assms(2) obtain st where st: "boundaries_placed ar g = Inr st"
    and segs: "segs = renumber (closed_loop_trim g (placed st))"
    by (auto simp: divide_track_into_segments_def split: sum.splits)
  have ne: "?pts \<noteq> []" by (rule boundaries_placed_Inr(1) [OF st])
  from boundaries_placed_Inr(2) [OF st] obtain n where n: "st = placement_loop ar g ?ds n"
    by blast
  from assms(3) segs renumber_member obtain s0 k
    where s0: "s0 \<in> set (closed_loop_trim g (placed st))"
      and s: "s = s0\<lparr>segment_number := k\<rparr>"
    by blast
  from s0 closed_loop_trim_subset have "s0 \<in> set (placed st)" by blast
  with n placement_loop_member obtain i where "s0 \<in> set (placed_at ar g ?ds i)" by blast
  from placed_at_member [OF this] obtain j
    where j: "find_interval ?ds (float_times ar i (segment_length g)) = Some j"
      and pos: "0 < linalg_norm (vsub (?pts ! Suc j) (?pts ! j))"
      and s0_eq: "s0 = boundary_segment g i (float_times ar i (segment_length g))
                 (vadd (?pts ! j)
                    (vscale ((float_times ar i (segment_length g) - ?ds ! j) / (?ds ! Suc j - ?ds ! j))
                       (vsub (?pts ! Suc j) (?pts ! j))))
                 (vsub (?pts ! Suc j) (?pts ! j))
                 (linalg_norm (vsub (?pts ! Suc j) (?pts ! j)))"
    by blast
  note geo = boundary_segment_geometry [OF pos, of g i "float_times ar i (segment_length g)"
      "vadd (?pts ! j)
         (vscale ((float_times ar i (segment_length g) - ?ds ! j) / (?ds ! Suc j - ?ds ! j))
            (vsub (?pts ! Suc j) (?pts ! j)))", folded s0_eq]
  note f = find_interval_Some [OF j]
  have fields: "line_start s = line_start s0" "line_end s = line_end s0"
    "center_point s = center_point s0" "distance s = distance s0"
    using s by simp_all
  have sj: "Suc j < length ?pts" using f(1) length_cumulative_distances [OF ne] by simp
  have w: "\<bar>track_width g / 2\<bar> = track_width g / 2" using assms(1) by simp
  have a: "linalg_norm (vsub (line_start s) (center_point s)) = track_width g / 2"
    using geo(1) w by (simp add: fields)
  have b: "linalg_norm (vsub (line_end s) (center_point s)) = track_width g / 2"
    using geo(2) w by (simp add: fields)
  have c: "center_point s = vscale (1 / 2) (vadd (line_start s) (line_end s))"
    using geo(3) by (simp add: fields)
  have d: "dot (vsub (line_end s) (line_start s)) (vsub (?pts ! Suc j) (?pts ! j)) = 0"
    using geo(4) by (simp add: fields)
  have e: "distance s = float_times ar i (segment_length g)"
    using geo(5) by (simp add: fields)
  have h: "center_point s = vadd (?pts ! j)
             (vscale ((distance s - ?ds ! j) / (?ds ! Suc j - ?ds ! j))
                (vsub (?pts ! Suc j) (?pts ! j)))"
    using geo(6) by (simp add: fields geo(5))
  have "\<exists>j. Suc j < length ?pts \<and> ?ds ! j \<le> distance s \<and> distance s \<le> ?ds ! Suc j \<and>
          center_point s = vadd (?pts ! j)
             (vscale ((distance s - ?ds ! j) / (?ds ! Suc j - ?ds ! j))
                (vsub (?pts ! Suc j) (?pts ! j))) \<and>
          dot (vsub (line_end s) (line_start s)) (vsub (?pts ! Suc j) (?pts ! j)) = 0"
    using sj f(2,3) h d e by (intro exI [of _ j]) simp
  with a b c show ?thesis by simp
qed

theorem boundary_line_geometry_witness:
  "0 \<le> track_width example_generator \<and>
   divide_track_into_segments exact_arithmetic example_generator = Inr example_divisions \<and>
   example_divisions ! 1 \<in> set example_divisions \<and>
   linalg_norm (vsub (line_start (example_divisions ! 1))
                     (center_point (example_divisions ! 1))) = 1 \<and>
   linalg_norm (vsub (line_end (example_divisions ! 1))
                     (center_point (example_divisions ! 1))) = 1 \<and>
   center_point (example_divisions ! 1)
     = vscale (1 / 2) (vadd (line_start (example_divisions ! 1))
                            (line_end (example_divisions ! 1))) \<and>
   (\<exists>j. Suc j < length (centerline_points example_generator) \<and>
        dot (vsub (line_end (example_divisions ! 1)) (line_start (example_divisions ! 1)))
            (vsub (centerline_points example_generator ! Suc j)
                  (centerline_points example_generator ! j)) = 0)"
proof -
  have h1: "0 \<le> track_width example_generator" by (simp add: example_generator_def)
  have h3: "example_divisions ! 1 \<in> set example_divisions"
    by (simp add: example_divisions_def)
  have w: "track_width example_generator / 2 = 1" by (simp add: example_generator_def)
  from boundary_line_geometry [OF h1 example_divided h3] h1 h3 example_divided
  show ?thesis unfolding w by blast
qed

text \<open>
  Claim C5 on a centerline whose first sample is repeated. The boundary at arc distance 0
  falls in the interval of the two equal points; it is not emitted, and the three later
  boundaries are. But the interpolation fraction of that interval is computed before the
  direction is tested, and its divisor \<open>distances[1] - distances[0]\<close> is zero: one
  division by zero is evaluated. (The lemma \<open>repeated_first_sample\<close> shows the same for
  every centerline whose first two samples are equal.)
\<close>

theorem duplicate_start_divides_by_zero:
  "boundaries_placed exact_arithmetic duplicate_start_generator =
     Inr \<lparr>placed =
            [\<lparr>segment_number = 1, center_point = (1, 0), line_start = (1, -1),
              line_end = (1, 1), distance = 1, is_curve = None, speed_limit = None\<rparr>,
             \<lparr>segment_number = 2, center_point = (2, 0), line_start = (2, -1),
              line_end = (2, 1), distance = 2, is_curve = None, speed_limit = None\<rparr>,
             \<lparr>segment_number = 3, center_point = (3, 0), line_start = (3, -1),
              line_end = (3, 1), distance = 3, is_curve = None, speed_limit = None\<rparr>],
          zero_divides = 1\<rparr>"
  by (simp add: boundaries_placed_def duplicate_start_generator_def
        duplicate_start_cumulative num_segments_of_def exact_arithmetic_def py_int_def placement_loop_def upt_4
        place_boundary_def duplicate_start_find boundary_segment_def empty_placement_def
        zero_divisor_def vector_defs linalg_norm_horizontal Let_def)

text \<open>
  Claim C7. The segment numbers of any list the segmenter returns are 1, 2, ..., up to the
  length of the list, in order.
\<close>

theorem segment_numbers_contiguous:
  assumes "divide_track_into_segments ar g = Inr segs"
  shows "map segment_number segs = map int [1..<length segs + 1]"
proof -
  from assms obtain st :: placement
    where "segs = renumber (closed_loop_trim g (placed st))"
    by (auto simp: divide_track_into_segments_def split: sum.splits)
  then show ?thesis by (simp only: renumber_numbers length_renumber)
qed

theorem segment_numbers_contiguous_witness:
  "divide_track_into_segments exact_arithmetic example_generator = Inr example_divisions \<and>
   map segment_number example_divisions = [1, 2, 3, 4]"
proof -
  have "length example_divisions = 4" by (simp add: example_divisions_def)
  moreover have "map int [1..<5] = [1, 2, 3, 4]" by (simp add: upt_rec)
  ultimately show ?thesis
    using segment_numbers_contiguous [OF example_divided] example_divided by simp
qed

text \<open>
  Claim C6, as amended. For a centerline of at least two points the manual offset
  calculation returns without error and evaluates no division by zero. It emits a left
  and a right point exactly at the indices whose estimated tangent is not zero, in order:
  index 0 is left out when the first two points are equal, the last index when the last
  two are, and an inner index \<open>i\<close> when \<open>points[i-1] = points[i+1]\<close>. Neither border is
  longer than the centerline.
\<close>

theorem manual_offset_skips_zero_tangents:
  assumes "2 \<le> length (centerline_points g)"
  shows "\<exists>st. manual_offset_calculation g offset_distance = Inr st \<and>
           offset_zero_divides st = 0 \<and>
           emitted_indices (centerline_points g)
             = filter (\<lambda>i. \<not> zero_tangent (centerline_points g) i)
                 [0..<length (centerline_points g)] \<and>
           left_points st =
             map (\<lambda>i. vadd (centerline_points g ! i)
                         (vscale offset_distance (perpendicular_at (centerline_points g) i)))
               (emitted_indices (centerline_points g)) \<and>
           right_points st =
             map (\<lambda>i. vsub (centerline_points g ! i)
                         (vscale offset_distance (perpendicular_at (centerline_points g) i)))
               (emitted_indices (centerline_points g)) \<and>
           length (left_points st) \<le> length (centerline_points g) \<and>
           length (right_points st) \<le> length (centerline_points g)"
proof -
  let ?pts = "centerline_points g"
  let ?st = "\<lparr>left_points =
                map (\<lambda>i. vadd (?pts ! i) (vscale offset_distance (perpendicular_at ?pts i)))
                  (emitted_indices ?pts),
              right_points =
                map (\<lambda>i. vsub (?pts ! i) (vscale offset_distance (perpendicular_at ?pts i)))
                  (emitted_indices ?pts),
              offset_zero_divides = 0\<rparr>"
  have run: "manual_offset_calculation g offset_distance = Inr ?st"
    by (rule manual_offset_calculation_result [OF assms])
  have which: "emitted_indices ?pts = filter (\<lambda>i. \<not> zero_tangent ?pts i) [0..<length ?pts]"
    by (rule emitted_indices_filter [OF assms])
  have bound: "length (emitted_indices ?pts) \<le> length ?pts"
    by (rule length_emitted_indices)
  show ?thesis
    unfolding run
    by (intro exI [of _ ?st] conjI refl which) (simp_all add: bound)
qed

theorem manual_offset_skips_zero_tangents_witness:
  "2 \<le> length (centerline_points duplicate_inside_generator) \<and>
   manual_offset_calculation duplicate_inside_generator 1 =
     Inr \<lparr>left_points = [(0, 1), (1, 1), (1, 1), (2, 1)],
          right_points = [(0, -1), (1, -1), (1, -1), (2, -1)],
          offset_zero_divides = 0\<rparr> \<and>
   emitted_indices (centerline_points duplicate_inside_generator) = [0, 1, 2, 3]"
proof -
  have h: "2 \<le> length (centerline_points duplicate_inside_generator)"
    by (simp add: duplicate_inside_generator_def)
  have c: "centerline_points duplicate_inside_generator = [(0, 0), (1, 0), (1, 0), (2, 0)]"
    by (simp add: duplicate_inside_generator_def)
  from manual_offset_skips_zero_tangents [OF h, of 1]
  have "emitted_indices (centerline_points duplicate_inside_generator)
          = filter (\<lambda>i. \<not> zero_tangent (centerline_points duplicate_inside_generator) i)
              [0..<length (centerline_points duplicate_inside_generator)]"
    by blast
  also have "\<dots> = [0, 1, 2, 3]"
    by (simp add: c zero_tangent_def)
  finally have "emitted_indices (centerline_points duplicate_inside_generator) = [0, 1, 2, 3]" .
  with h duplicate_inside_offsets show ?thesis by simp
qed

text \<open>
  Claim C6 as stated fails where it says that exactly the points next to a duplicate are
  left out: in the centerline (0,0), (1,0), (1,0), (2,0) the points at the indices 1 and 2
  are equal, yet the central differences there are not zero and all four border points
  are emitted.
\<close>

theorem manual_offset_skips_zero_tangents_counterexample:
  "duplicate_adjacent (centerline_points duplicate_inside_generator) 1 \<and>
   duplicate_adjacent (centerline_points duplicate_inside_generator) 2 \<and>
   manual_offset_calculation duplicate_inside_generator 1 =
     Inr \<lparr>left_points = [(0, 1), (1, 1), (1, 1), (2, 1)],
          right_points = [(0, -1), (1, -1), (1, -1), (2, -1)],
          offset_zero_divides = 0\<rparr>"
  using duplicate_inside_offsets
  by (simp add: duplicate_adjacent_def duplicate_inside_generator_def)

text \<open>
  Claim C10. For a centerline of at least two points and a track width that is not
  negative, the manual offset calculation at \<open>track_width / 2\<close> returns two borders of
  equal length, one pair of points per emitted index; the midpoint of each pair is the
  centerline point of its index, and the two points are \<open>track_width\<close> apart.
\<close>

theorem manual_offsets_mirror:
  assumes "2 \<le> length (centerline_points g)" and "0 \<le> track_width g"
  shows "\<exists>st. manual_offset_calculation g (track_width g / 2) = Inr st \<and>
           length (left_points st) = length (right_points st) \<and>
           length (left_points st) = length (emitted_indices (centerline_points g)) \<and>
           (\<forall>k < length (left_points st).
              vscale (1 / 2) (vadd (left_points st ! k) (right_points st ! k))
                = centerline_points g ! (emitted_indices (centerline_points g) ! k) \<and>
              linalg_norm (vsub (left_points st ! k) (right_points st ! k)) = track_width g)"
proof -
  let ?pts = "centerline_points g"
  let ?idx = "emitted_indices ?pts"
  let ?v = "\<lambda>i. vscale (track_width g / 2) (perpendicular_at ?pts i)"
  let ?st = "\<lparr>left_points = map (\<lambda>i. vadd (?pts ! i) (?v i)) ?idx,
              right_points = map (\<lambda>i. vsub (?pts ! i) (?v i)) ?idx,
              offset_zero_divides = 0\<rparr>"
  have run: "manual_offset_calculation g (track_width g / 2) = Inr ?st"
    by (rule manual_offset_calculation_result [OF assms(1)])
  have mid: "vscale (1 / 2) (vadd (vadd (?pts ! (?idx ! k)) (?v (?idx ! k)))
                                  (vsub (?pts ! (?idx ! k)) (?v (?idx ! k))))
               = ?pts ! (?idx ! k)" for k
    by (rule midpoint_offsets')
  have apart: "linalg_norm (vsub (vadd (?pts ! (?idx ! k)) (?v (?idx ! k)))
                                 (vsub (?pts ! (?idx ! k)) (?v (?idx ! k)))) = track_width g"
    if "k < length ?idx" for k
  proof -
    from that have mem: "?idx ! k \<in> set ?idx" by simp
    have unit: "linalg_norm (perpendicular_at ?pts (?idx ! k)) = 1"
      by (rule perpendicular_at_unit [OF assms(1) mem])
    have "linalg_norm (vscale 2 (?v (?idx ! k))) = track_width g"
      using assms(2) by (simp add: linalg_norm_vscale unit)
    then show ?thesis by (simp only: offsets_difference)
  qed
  show ?thesis
    unfolding run
    by (intro exI [of _ ?st] conjI refl allI impI) (simp_all add: mid apart)
qed

theorem manual_offsets_mirror_witness:
  "2 \<le> length (centerline_points duplicate_inside_generator) \<and>
   0 \<le> track_width duplicate_inside_generator \<and>
   manual_offset_calculation duplicate_inside_generator
     (track_width duplicate_inside_generator / 2) =
     Inr \<lparr>left_points = [(0, 1), (1, 1), (1, 1), (2, 1)],
          right_points = [(0, -1), (1, -1), (1, -1), (2, -1)],
          offset_zero_divides = 0\<rparr> \<and>
   vscale (1 / 2) (vadd (1, 1) (1, -1)) = ((1, 0) :: point) \<and>
   linalg_norm (vsub (2, 1) (2, -1)) = 2"
proof -
  have h1: "2 \<le> length (centerline_points duplicate_inside_generator)"
    and h2: "0 \<le> track_width duplicate_inside_generator"
    and w: "track_width duplicate_inside_generator / 2 = 1"
    and w2: "track_width duplicate_inside_generator = 2"
    by (simp_all add: duplicate_inside_generator_def)
  from manual_offsets_mirror [OF h1 h2] obtain st
    where run: "manual_offset_calculation duplicate_inside_generator
                  (track_width duplicate_inside_generator / 2) = Inr st"
      and pairs: "\<forall>k < length (left_points st).
              vscale (1 / 2) (vadd (left_points st ! k) (right_points st ! k))
                = centerline_points duplicate_inside_generator
                    ! (emitted_indices (centerline_points duplicate_inside_generator) ! k) \<and>
              linalg_norm (vsub (left_points st ! k) (right_points st ! k))
                = track_width duplicate_inside_generator"
    by blast
  from run have st: "st = \<lparr>left_points = [(0, 1), (1, 1), (1, 1), (2, 1)],
          right_points = [(0, -1), (1, -1), (1, -1), (2, -1)],
          offset_zero_divides = 0\<rparr>"
    by (simp add: w duplicate_inside_offsets)
  from pairs [rule_format, of 3] have "linalg_norm (vsub (2, 1) (2, -1)) = 2"
    by (simp add: st w2)
  moreover have "vscale (1 / 2) (vadd (1, 1) (1, -1)) = ((1, 0) :: point)"
    by (simp add: vscale_def vadd_def)
  ultimately show ?thesis using h1 h2 run st by simp
qed

subsection \<open>Mutations of the segment list\<close>

lemma reposition_length: "length (reposition sid pos segs) = length segs"
  by (induction segs) auto

lemma reposition_nth:
  "i < length segs \<Longrightarrow>
   reposition sid pos segs ! i = (segs ! i)\<lparr>center_point := center_point (reposition sid pos segs ! i)\<rparr> \<and>
   (segment_number (segs ! i) \<noteq> sid \<longrightarrow> reposition sid pos segs ! i = segs ! i)"
proof (induction segs arbitrary: i)
  case Nil
  then show ?case by simp
next
  case (Cons s rest)
  show ?case
  proof (cases i)
    case 0
    then show ?thesis by simp
  next
    case (Suc k)
    with Cons show ?thesis by simp
  qed
qed

lemma fold_reposition_length:
  "length (fold (\<lambda>u. reposition (update_id u) (update_position u)) updates segs) = length segs"
  by (induction updates arbitrary: segs) (auto simp: reposition_length)

lemma fold_reposition_nth:
  "i < length segs \<Longrightarrow>
   (let s' = fold (\<lambda>u. reposition (update_id u) (update_position u)) updates segs ! i in
    s' = (segs ! i)\<lparr>center_point := center_point s'\<rparr> \<and>
    (segment_number (segs ! i) \<notin> update_id ` set updates \<longrightarrow> s' = segs ! i))"
proof (induction updates arbitrary: segs)
  case Nil
  then show ?case by simp
next
  case (Cons u us)
  let ?mid = "reposition (update_id u) (update_position u) segs"
  have len: "i < length ?mid" using Cons.prems by (simp add: reposition_length)
  have step: "?mid ! i = (segs ! i)\<lparr>center_point := center_point (?mid ! i)\<rparr>"
    and keep: "segment_number (segs ! i) \<noteq> update_id u \<Longrightarrow> ?mid ! i = segs ! i"
    using reposition_nth [OF Cons.prems, of "update_id u" "update_position u"] by auto
  have num: "segment_number (?mid ! i) = segment_number (segs ! i)"
    by (subst step) simp
  let ?fin = "fold (\<lambda>u. reposition (update_id u) (update_position u)) us ?mid ! i"
  have ih1: "?fin = (?mid ! i)\<lparr>center_point := center_point ?fin\<rparr>"
    and ih2: "segment_number (?mid ! i) \<notin> update_id ` set us \<Longrightarrow> ?fin = ?mid ! i"
    using Cons.IH [OF len] by (auto simp: Let_def)
  have a: "?fin = (segs ! i)\<lparr>center_point := center_point ?fin\<rparr>"
    by (subst ih1, subst step) simp
  have b: "?fin = segs ! i" if "segment_number (segs ! i) \<notin> update_id ` set (u # us)"
    using that keep ih2 num by auto
  show ?case using a b by (simp add: Let_def)
qed

lemma mark_segment_idem:
  "mark_segment a b v (mark_segment a b v s) = mark_segment a b v s"
  by (simp add: mark_segment_def get_is_curve_def)

text \<open>
  Claim C8, as amended. \<^verbatim>\<open>mark_curve\<close> with a known session succeeds and keeps the
  number of segments. A segment whose number lies in the inclusive range gets
  \<open>is_curve = True\<close> and the given speed limit and is otherwise unchanged. A segment
  outside the range keeps its speed limit and every other field, and its \<open>is_curve\<close> is
  stored as the value it had, or as \<open>False\<close> where the key was absent: the key is added.
  Marking a second time with the same arguments changes nothing.
\<close>

theorem mark_curve_marks_range_and_is_idempotent:
  assumes "track_generators session_id = Some g"
  shows "\<exists>g'. mark_curve track_generators session_id start_segment end_segment limit
                 = Inr (track_generators(session_id \<mapsto> g')) \<and>
           g' = g\<lparr>segment_divisions := segment_divisions g'\<rparr> \<and>
           length (segment_divisions g') = length (segment_divisions g) \<and>
           (\<forall>i < length (segment_divisions g).
              let s = segment_divisions g ! i; s' = segment_divisions g' ! i in
              (start_segment \<le> segment_number s \<and> segment_number s \<le> end_segment \<longrightarrow>
                 s' = s\<lparr>is_curve := Some True, speed_limit := Some limit\<rparr>) \<and>
              (\<not> (start_segment \<le> segment_number s \<and> segment_number s \<le> end_segment) \<longrightarrow>
                 s' = s\<lparr>is_curve := Some (case is_curve s of None \<Rightarrow> False | Some b \<Rightarrow> b)\<rparr>)) \<and>
           mark_curve (track_generators(session_id \<mapsto> g')) session_id
             start_segment end_segment limit
             = Inr (track_generators(session_id \<mapsto> g'))"
proof -
  let ?segs' = "map (mark_segment start_segment end_segment limit) (segment_divisions g)"
  let ?g' = "g\<lparr>segment_divisions := ?segs'\<rparr>"
  have run: "mark_curve track_generators session_id start_segment end_segment limit
               = Inr (track_generators(session_id \<mapsto> ?g'))"
    using assms by (simp add: mark_curve_def)
  have again: "mark_curve (track_generators(session_id \<mapsto> ?g')) session_id
                 start_segment end_segment limit
               = Inr (track_generators(session_id \<mapsto> ?g'))"
    by (simp add: mark_curve_def mark_segment_idem comp_def)
  have each: "(start_segment \<le> segment_number s \<and> segment_number s \<le> end_segment \<longrightarrow>
                 mark_segment start_segment end_segment limit s
                   = s\<lparr>is_curve := Some True, speed_limit := Some limit\<rparr>) \<and>
              (\<not> (start_segment \<le> segment_number s \<and> segment_number s \<le> end_segment) \<longrightarrow>
                 mark_segment start_segment end_segment limit s
                   = s\<lparr>is_curve := Some (case is_curve s of None \<Rightarrow> False | Some b \<Rightarrow> b)\<rparr>)"
    for s
    by (simp add: mark_segment_def get_is_curve_def)
  show ?thesis
    unfolding run Let_def
    apply (intro exI [of _ ?g'] conjI allI impI refl again)
    using each by simp_all
qed

theorem mark_curve_marks_range_and_is_idempotent_witness:
  "example_registry ''session_0'' = Some example_generator \<and>
   (case mark_curve example_registry ''session_0'' 2 3 4 of
      Inl e \<Rightarrow> False
    | Inr r \<Rightarrow>
        mark_curve r ''session_0'' 2 3 4 = Inr r \<and>
        (case r ''session_0'' of
           None \<Rightarrow> False
         | Some g' \<Rightarrow>
             segment_divisions g' ! 1
               = (example_segments ! 1)\<lparr>is_curve := Some True, speed_limit := Some 4\<rparr> \<and>
             segment_divisions g' ! 0 = (example_segments ! 0)\<lparr>is_curve := Some False\<rparr>))"
proof -
  have h: "example_registry ''session_0'' = Some example_generator"
    by (simp add: example_registry_def)
  from mark_curve_marks_range_and_is_idempotent
         [of example_registry "''session_0''" example_generator 2 3 4] h
  obtain g' where run: "mark_curve example_registry ''session_0'' 2 3 4
                        = Inr (example_registry(''session_0'' \<mapsto> g'))"
    and again: "mark_curve (example_registry(''session_0'' \<mapsto> g')) ''session_0'' 2 3 4
                = Inr (example_registry(''session_0'' \<mapsto> g'))"
    and fr: "\<forall>i < length (segment_divisions example_generator).
              let s = segment_divisions example_generator ! i; s' = segment_divisions g' ! i in
              (2 \<le> segment_number s \<and> segment_number s \<le> 3 \<longrightarrow>
                 s' = s\<lparr>is_curve := Some True, speed_limit := Some 4\<rparr>) \<and>
              (\<not> (2 \<le> segment_number s \<and> segment_number s \<le> 3) \<longrightarrow>
                 s' = s\<lparr>is_curve := Some (case is_curve s of None \<Rightarrow> False | Some b \<Rightarrow> b)\<rparr>)"
    by blast
  have l: "length (segment_divisions example_generator) = 2"
    by (simp add: example_generator_def example_segments_def)
  from fr l have f1: "segment_divisions g' ! 1
               = (example_segments ! 1)\<lparr>is_curve := Some True, speed_limit := Some 4\<rparr>"
    by (simp add: Let_def example_generator_def example_segments_def)
  from fr l have f0: "segment_divisions g' ! 0
               = (example_segments ! 0)\<lparr>is_curve := Some False\<rparr>"
    by (simp add: Let_def example_generator_def example_segments_def)
  show ?thesis using h run again f0 f1 by simp
qed

text \<open>
  Claim C8 as stated fails where it says that a segment outside the range keeps its
  \<open>is_curve\<close> field unchanged: segment 1 of the example has no \<open>is_curve\<close> key, lies
  outside the range 2 to 3, and has \<open>is_curve = False\<close> after the call.
\<close>

theorem mark_curve_marks_range_and_is_idempotent_counterexample:
  "is_curve (segment_divisions example_generator ! 0) = None \<and>
   segment_number (segment_divisions example_generator ! 0) = 1 \<and>
   mark_curve example_registry ''session_0'' 2 3 4 =
     Inr (example_registry(''session_0'' \<mapsto>
            example_generator\<lparr>segment_divisions :=
              [\<lparr>segment_number = 1, center_point = (0, 0), line_start = (0, -1),
                line_end = (0, 1), distance = 0, is_curve = Some False,
                speed_limit = None\<rparr>,
               \<lparr>segment_number = 2, center_point = (1, 0), line_start = (1, -1),
                line_end = (1, 1), distance = 1, is_curve = Some True,
                speed_limit = Some 4\<rparr>]\<rparr>))"
  by (simp add: mark_curve_def example_registry_def example_generator_def
        example_segments_def mark_segment_def get_is_curve_def)

text \<open>
  Claim C9. \<^verbatim>\<open>update_segments\<close> with a known session succeeds and keeps the number of
  segments. Every segment keeps its number, \<open>line_start\<close>, \<open>line_end\<close>, \<open>distance\<close>,
  \<open>is_curve\<close> and \<open>speed_limit\<close>, so only \<open>center_point\<close> can change, and a segment whose
  number is not the id of an update is unchanged.
\<close>

theorem update_segments_changes_only_center_point:
  assumes "track_generators session_id = Some g"
  shows "\<exists>g'. update_segments track_generators session_id updates
                 = Inr (track_generators(session_id \<mapsto> g')) \<and>
           g' = g\<lparr>segment_divisions := segment_divisions g'\<rparr> \<and>
           length (segment_divisions g') = length (segment_divisions g) \<and>
           (\<forall>i < length (segment_divisions g).
              let s = segment_divisions g ! i; s' = segment_divisions g' ! i in
              segment_number s' = segment_number s \<and> line_start s' = line_start s \<and>
              line_end s' = line_end s \<and> distance s' = distance s \<and>
              is_curve s' = is_curve s \<and> speed_limit s' = speed_limit s \<and>
              (segment_number s \<notin> update_id ` set updates \<longrightarrow> s' = s))"
proof -
  let ?segs' = "fold (\<lambda>u. reposition (update_id u) (update_position u)) updates
                  (segment_divisions g)"
  let ?g' = "g\<lparr>segment_divisions := ?segs'\<rparr>"
  have run: "update_segments track_generators session_id updates
               = Inr (track_generators(session_id \<mapsto> ?g'))"
    using assms by (simp add: update_segments_def)
  have frame: "segment_number (?segs' ! i) = segment_number (segment_divisions g ! i) \<and>
               line_start (?segs' ! i) = line_start (segment_divisions g ! i) \<and>
               line_end (?segs' ! i) = line_end (segment_divisions g ! i) \<and>
               distance (?segs' ! i) = distance (segment_divisions g ! i) \<and>
               is_curve (?segs' ! i) = is_curve (segment_divisions g ! i) \<and>
               speed_limit (?segs' ! i) = speed_limit (segment_divisions g ! i) \<and>
               (segment_number (segment_divisions g ! i) \<notin> update_id ` set updates
                  \<longrightarrow> ?segs' ! i = segment_divisions g ! i)"
    if "i < length (segment_divisions g)" for i
  proof -
    have eq: "?segs' ! i = (segment_divisions g ! i)\<lparr>center_point := center_point (?segs' ! i)\<rparr>"
      and keep: "segment_number (segment_divisions g ! i) \<notin> update_id ` set updates
                   \<Longrightarrow> ?segs' ! i = segment_divisions g ! i"
      using fold_reposition_nth [OF that, of updates] by (auto simp: Let_def)
    show ?thesis
      using keep eq
      by (metis (no_types, lifting) segment.select_convs(1,3,4,5,6,7) segment.surjective segment.update_convs(2))
  qed
  show ?thesis
    unfolding run Let_def
    by (intro exI [of _ ?g'] conjI allI impI refl) (simp_all add: fold_reposition_length frame)
qed

theorem update_segments_changes_only_center_point_witness:
  "example_registry ''session_0'' = Some example_generator \<and>
   (case update_segments example_registry ''session_0''
           [\<lparr>update_id = 2, update_position = (5, 5)\<rparr>] of
      Inl e \<Rightarrow> False
    | Inr r \<Rightarrow>
        (case r ''session_0'' of
           None \<Rightarrow> False
         | Some g' \<Rightarrow>
             line_start (segment_divisions g' ! 1) = (1, -1) \<and>
             line_end (segment_divisions g' ! 1) = (1, 1) \<and>
             distance (segment_divisions g' ! 1) = 1 \<and>
             segment_divisions g' ! 0 = example_segments ! 0))"
proof -
  have h: "example_registry ''session_0'' = Some example_generator"
    by (simp add: example_registry_def)
  from update_segments_changes_only_center_point
         [of example_registry "''session_0''" example_generator
             "[\<lparr>update_id = 2, update_position = (5, 5)\<rparr>]"] h
  obtain g' where run: "update_segments example_registry ''session_0''
                          [\<lparr>update_id = 2, update_position = (5, 5)\<rparr>]
                        = Inr (example_registry(''session_0'' \<mapsto> g'))"
    and fr: "\<forall>i < length (segment_divisions example_generator).
              let s = segment_divisions example_generator ! i; s' = segment_divisions g' ! i in
              segment_number s' = segment_number s \<and> line_start s' = line_start s \<and>
              line_end s' = line_end s \<and> distance s' = distance s \<and>
              is_curve s' = is_curve s \<and> speed_limit s' = speed_limit s \<and>
              (segment_number s \<notin> update_id ` set [\<lparr>update_id = 2, update_position = (5, 5)\<rparr>]
                 \<longrightarrow> s' = s)"
    by blast
  have l: "length (segment_divisions example_generator) = 2"
    by (simp add: example_generator_def example_segments_def)
  from fr l have f0: "segment_divisions g' ! 0 = example_segments ! 0"
    by (simp add: Let_def example_generator_def example_segments_def)
  from fr l have f1: "line_start (segment_divisions g' ! 1) = (1, -1) \<and>
             line_end (segment_divisions g' ! 1) = (1, 1) \<and>
             distance (segment_divisions g' ! 1) = 1"
    by (simp add: Let_def example_generator_def example_segments_def)
  show ?thesis using h run f0 f1 by simp
qed

end
